theory Spec2Isabelle
  imports Complex_Main "HOL-Library.List_Lexorder" "HOL-Library.Char_ord"
begin

section \<open>Data model\<close>

text \<open>
  The exceptions the modelled code can meet. \<open>RasterioIOError\<close> is the only one the
  readers catch by name; \<open>IndexError\<close> is what the raster backend raises for a band
  index outside the dataset; \<open>ValueError\<close> is numpy's error for the maximum of an empty
  array; \<open>OSError\<close> stands for a failing directory listing; \<open>SystemExit\<close> is what the
  readers raise themselves, and the only one that is not a Python \<open>Exception\<close>.
\<close>

datatype error = RasterioIOError | IndexError | ValueError | OSError | SystemExit

text \<open>What \<open>except Exception\<close> catches.\<close>

definition is_Exception :: "error \<Rightarrow> bool" where
  "is_Exception e = (e \<noteq> SystemExit)"

text \<open>
  A band as numpy holds it: a two-dimensional array, given by its shape and its
  row-major buffer. Samples are real numbers: \<open>astype(float32)\<close> is the identity of the
  model, and float32 rounding, NaN and the infinities are not represented.
\<close>

record ndarray =
  shape0 :: nat
  shape1 :: nat
  data :: "real list"





text \<open>\<open>np.sum(a)\<close>, \<open>np.max(a)\<close> (an error on an empty array), \<open>a / c\<close> and \<open>np.any(a)\<close>.\<close>

definition np_sum :: "ndarray \<Rightarrow> real" where
  "np_sum a = sum_list (data a)"

definition np_max :: "ndarray \<Rightarrow> error + real" where
  "np_max a = (case data a of [] \<Rightarrow> Inl ValueError | x # xs \<Rightarrow> Inr (fold max xs x))"

definition div_scalar :: "ndarray \<Rightarrow> real \<Rightarrow> ndarray" where
  "div_scalar a c = a\<lparr>data := map (\<lambda>x. x / c) (data a)\<rparr>"

definition np_any :: "ndarray \<Rightarrow> bool" where
  "np_any a = list_ex (\<lambda>x. x \<noteq> 0) (data a)"

section \<open>Coverage statistic (ground\_truth.py, lines 38 to 46)\<close>

text \<open>
  The value stored in \<open>evol_matrix[index][i - 1]\<close> for one band: 0 when the band sums
  to zero, else the sum of the band divided by its maximum (the band itself when the
  maximum is zero), over the pixel count, times 100.
\<close>

definition pc_band :: "ndarray \<Rightarrow> error + real" where
  "pc_band band =
     (if np_sum band = 0 then Inr 0
      else case np_max band of
             Inl e \<Rightarrow> Inl e
           | Inr band_max \<Rightarrow>
               (let band_normalized = (if band_max \<noteq> 0 then div_scalar band band_max else band);
                    total_band = np_sum band_normalized
                in Inr (total_band / real (shape0 band * shape1 band) * 100)))"


section \<open>Rasters (the backend is a parameter)\<close>

text \<open>
  An opened dataset: its declared band count \<open>self.bandes = image.count\<close> and what
  \<open>image.read(i)\<close> gives for each index, a band or an exception. Nothing is assumed
  about the backend beyond that.
\<close>

record image =
  bandes :: int
  read :: "int \<Rightarrow> error + ndarray"

definition readable :: "image \<Rightarrow> int \<Rightarrow> bool" where
  "readable img i = (case read img i of Inl e \<Rightarrow> False | Inr d \<Rightarrow> True)"

section \<open>Class registry (classes\_reader.py, lines 20 to 31 and 77)\<close>

definition dict_classes_items :: "(string \<times> int) list" where
  "dict_classes_items =
     [(''Impervious surfaces'', 1), (''Agriculture'', 2), (''Forest'', 3), (''Wetlands'', 4),
      (''Soil'', 5), (''Water'', 6), (''Snow'', 7)]"


definition reverse_dict_classes :: "int \<rightharpoonup> string" where
  "reverse_dict_classes = fold (\<lambda>(k, v) m. m(v \<mapsto> k)) dict_classes_items Map.empty"

text \<open>Python's \<open>str\<close> of an integer, as the f-string formats \<open>{classe}\<close>.\<close>

definition digit_char :: "nat \<Rightarrow> char" where
  "digit_char d = ''0123456789'' ! d"

function str_nat :: "nat \<Rightarrow> string" where
  "str_nat n = (if n < 10 then [digit_char n] else str_nat (n div 10) @ [digit_char (n mod 10)])"
  by pat_completeness auto
termination
  by (relation "measure (\<lambda>n. n)") auto

definition str_int :: "int \<Rightarrow> string" where
  "str_int i = (if i < 0 then CHR ''-'' # str_nat (nat (- i)) else str_nat (nat i))"

text \<open>\<open>self.reverse_dict_classes.get(classe, f"Unknown Class ({classe})")\<close>\<close>

definition classe_name :: "int \<Rightarrow> string" where
  "classe_name classe =
     (case reverse_dict_classes classe of
        Some name \<Rightarrow> name
      | None \<Rightarrow> ''Unknown Class ('' @ str_int classe @ '')'')"

text \<open>
  \<open>show_class\<close> reads the band before it looks the name up; the result is the band
  together with the title of the plot.
\<close>

definition show_class :: "image \<Rightarrow> int \<Rightarrow> error + (ndarray \<times> string)" where
  "show_class img classe =
     (case read img classe of
        Inl e \<Rightarrow> Inl e
      | Inr d \<Rightarrow> Inr (d, ''Classe : '' @ classe_name classe))"

section \<open>Class detector (classes\_reader.py, lines 94 to 106)\<close>

fun detect_loop :: "image \<Rightarrow> int list \<Rightarrow> int list \<Rightarrow> error + int list" where
  "detect_loop img [] classes = Inr classes"
| "detect_loop img (i # rest) classes =
     (case read img i of
        Inl e \<Rightarrow> Inl e
      | Inr d \<Rightarrow> detect_loop img rest (if np_any d then classes @ [i] else classes))"

definition detect_classes :: "image \<Rightarrow> error + int list" where
  "detect_classes img = detect_loop img [1..bandes img] []"

definition has_data :: "image \<Rightarrow> int \<Rightarrow> bool" where
  "has_data img i = (case read img i of Inl e \<Rightarrow> False | Inr d \<Rightarrow> np_any d)"

definition all_readable :: "image \<Rightarrow> bool" where
  "all_readable img = list_all (readable img) [1..bandes img]"

section \<open>Spectral index engine (sat\_image\_reader.py, lines 216 to 264)\<close>

text \<open>
  Elementwise arithmetic on two arrays of one shape (the bands of one dataset share its
  height and width); the result takes the shape of the first operand. The quotient at a
  zero denominator is whatever \<open>/\<close> gives there: the masked assignment overwrites it.
\<close>

definition add_arrays :: "ndarray \<Rightarrow> ndarray \<Rightarrow> ndarray" where
  "add_arrays a b = a\<lparr>data := map2 (+) (data a) (data b)\<rparr>"

definition sub_arrays :: "ndarray \<Rightarrow> ndarray \<Rightarrow> ndarray" where
  "sub_arrays a b = a\<lparr>data := map2 (-) (data a) (data b)\<rparr>"

definition true_divide :: "ndarray \<Rightarrow> ndarray \<Rightarrow> ndarray" where
  "true_divide a b = a\<lparr>data := map2 (/) (data a) (data b)\<rparr>"

text \<open>\<open>a[denom == 0] = 0\<close>\<close>

definition assign_where_zero :: "ndarray \<Rightarrow> ndarray \<Rightarrow> ndarray" where
  "assign_where_zero a denom = a\<lparr>data := map2 (\<lambda>x d. if d = 0 then 0 else x) (data a) (data denom)\<rparr>"

definition ndvi_of :: "ndarray \<Rightarrow> ndarray \<Rightarrow> ndarray" where
  "ndvi_of red nir =
     (let denominator = add_arrays nir red;
          ndvi = true_divide (sub_arrays nir red) denominator
      in assign_where_zero ndvi denominator)"

text \<open>
  \<open>calculate_ndvi\<close>: \<open>Inr None\<close> is Python's \<open>None\<close>, returned when there are too few
  bands and when a read raises \<open>RasterioIOError\<close>; any other exception of a read leaves
  the function.
\<close>

definition calculate_ndvi :: "image \<Rightarrow> int \<Rightarrow> int \<Rightarrow> error + ndarray option" where
  "calculate_ndvi img red_band_index nir_band_index =
     (if bandes img < max red_band_index nir_band_index then Inr None
      else case read img red_band_index of
             Inl e \<Rightarrow> (if e = RasterioIOError then Inr None else Inl e)
           | Inr red \<Rightarrow>
               (case read img nir_band_index of
                  Inl e \<Rightarrow> (if e = RasterioIOError then Inr None else Inl e)
                | Inr nir \<Rightarrow> Inr (Some (ndvi_of red nir))))"

text \<open>\<open>np.where(ndvi > threshold, 1, 0)\<close>\<close>

definition np_where_gt :: "ndarray \<Rightarrow> real \<Rightarrow> ndarray" where
  "np_where_gt a threshold = a\<lparr>data := map (\<lambda>x. if x > threshold then 1 else 0) (data a)\<rparr>"

text \<open>\<open>show_ndvi\<close>: the result is the array handed to the renderer.\<close>

definition show_ndvi :: "image \<Rightarrow> int \<Rightarrow> int \<Rightarrow> real option \<Rightarrow> error + ndarray" where
  "show_ndvi img red_band_index nir_band_index threshold =
     (case calculate_ndvi img red_band_index nir_band_index of
        Inl e \<Rightarrow> Inl e
      | Inr None \<Rightarrow> Inl SystemExit
      | Inr (Some ndvi) \<Rightarrow>
          (case threshold of
             None \<Rightarrow> Inr ndvi
           | Some t \<Rightarrow> Inr (np_where_gt ndvi t)))"



section \<open>File names and paths\<close>

text \<open>
  File names are byte strings. \<open>str.endswith\<close>, \<open>str.startswith\<close>, \<open>os.path.join\<close> of
  two components and \<open>os.path.basename\<close>, as posixpath defines them.
\<close>

definition endswith :: "string \<Rightarrow> string \<Rightarrow> bool" where
  "endswith s suf = (length suf \<le> length s \<and> drop (length s - length suf) s = suf)"

definition startswith :: "string \<Rightarrow> string \<Rightarrow> bool" where
  "startswith s pre = (take (length pre) s = pre)"

definition path_join :: "string \<Rightarrow> string \<Rightarrow> string" where
  "path_join a b =
     (if startswith b ''/'' then b
      else if a = [] \<or> endswith a ''/'' then a @ b
      else a @ ''/'' @ b)"

definition basename :: "string \<Rightarrow> string" where
  "basename p = rev (takeWhile (\<lambda>c. c \<noteq> CHR ''/'') (rev p))"

text \<open>What a directory listing gives: names without a separator.\<close>

definition plain_name :: "string \<Rightarrow> bool" where
  "plain_name f = (f \<noteq> [] \<and> CHR ''/'' \<notin> set f)"

text \<open>What \<open>os.path.join\<close> puts in front of such a name.\<close>

definition join_prefix :: "string \<Rightarrow> string" where
  "join_prefix a = (if a = [] \<or> endswith a ''/'' then a else a @ ''/'')"

section \<open>Date label (ground\_truth.py, lines 49 to 54)\<close>

text \<open>
  The pattern \<open>\d{4}[-_]\d{2}[-_]\d{2}\<close> is a sequence of ten character classes, so a
  match at a position is decided character by character, and \<open>re.search\<close> returns the
  match at the leftmost position that has one. \<open>\d\<close> is an ASCII digit here (Python's
  \<open>\d\<close> on \<open>str\<close> also accepts the other Unicode decimal digits, which a byte string
  does not represent).
\<close>

definition isdigit :: "char \<Rightarrow> bool" where
  "isdigit c = (c \<in> set ''0123456789'')"

definition is_sep :: "char \<Rightarrow> bool" where
  "is_sep c = (c = CHR ''-'' \<or> c = CHR ''_'')"

definition date_pattern :: "(char \<Rightarrow> bool) list" where
  "date_pattern =
     [isdigit, isdigit, isdigit, isdigit, is_sep, isdigit, isdigit, is_sep, isdigit, isdigit]"

fun match_here :: "(char \<Rightarrow> bool) list \<Rightarrow> string \<Rightarrow> string option" where
  "match_here [] s = Some []"
| "match_here (p # ps) [] = None"
| "match_here (p # ps) (c # cs) =
     (if p c then map_option ((#) c) (match_here ps cs) else None)"

fun re_search :: "(char \<Rightarrow> bool) list \<Rightarrow> string \<Rightarrow> string option" where
  "re_search pat [] = match_here pat []"
| "re_search pat (c # cs) =
     (case match_here pat (c # cs) of
        Some m \<Rightarrow> Some m
      | None \<Rightarrow> re_search pat cs)"

text \<open>\<open>s.replace("_", "-")\<close>\<close>

definition replace_underscore :: "string \<Rightarrow> string" where
  "replace_underscore s = map (\<lambda>c. if c = CHR ''_'' then CHR ''-'' else c) s"

definition date_label :: "string \<Rightarrow> string option" where
  "date_label filename = map_option replace_underscore (re_search date_pattern filename)"



section \<open>Evolution aggregator (ground\_truth.py, lines 17 to 56)\<close>

text \<open>
  The file system is a parameter: what \<open>os.listdir\<close> gives for a folder and what
  \<open>rasterio.open\<close> gives for a path, each a result or an exception.
\<close>

record filesystem =
  listdir :: "string \<Rightarrow> error + string list"
  rasterio_open :: "string \<Rightarrow> error + image"

type_synonym matrix = "real list list"

text \<open>
  \<open>np.empty((n, m))\<close> allocates without initialising: the contents are whatever was
  in memory, here the parameter \<open>junk\<close>.
\<close>

definition np_empty :: "(nat \<Rightarrow> nat \<Rightarrow> real) \<Rightarrow> nat \<Rightarrow> nat \<Rightarrow> matrix" where
  "np_empty junk n m = map (\<lambda>r. map (junk r) [0..<m]) [0..<n]"

text \<open>\<open>evol_matrix[r][c] = v\<close>; both indices are in range wherever the loops use it.\<close>

definition set_cell :: "matrix \<Rightarrow> nat \<Rightarrow> nat \<Rightarrow> real \<Rightarrow> matrix" where
  "set_cell M r c v = M[r := (M ! r)[c := v]]"

text \<open>The loop over the bands \<open>i\<close> of one opened file.\<close>

fun band_loop :: "image \<Rightarrow> nat \<Rightarrow> int list \<Rightarrow> matrix \<Rightarrow> error + matrix" where
  "band_loop src index [] evol_matrix = Inr evol_matrix"
| "band_loop src index (i # rest) evol_matrix =
     (case read src i of
        Inl e \<Rightarrow> Inl e
      | Inr band \<Rightarrow>
          (case pc_band band of
             Inl e \<Rightarrow> Inl e
           | Inr v \<Rightarrow> band_loop src index rest (set_cell evol_matrix index (nat (i - 1)) v)))"

text \<open>
  The loop over the enumerated files. Nothing in it catches an exception: the first
  failing \<open>rasterio.open\<close> or \<open>read\<close> leaves the loop and the function.
\<close>

fun file_loop ::
  "filesystem \<Rightarrow> (nat \<times> string) list \<Rightarrow> matrix \<times> string list \<Rightarrow> error + (matrix \<times> string list)"
where
  "file_loop fs [] st = Inr st"
| "file_loop fs ((index, tif_path) # rest) (evol_matrix, dates) =
     (case rasterio_open fs tif_path of
        Inl e \<Rightarrow> Inl e
      | Inr src \<Rightarrow>
          (case band_loop src index [1..7] evol_matrix of
             Inl e \<Rightarrow> Inl e
           | Inr evol_matrix' \<Rightarrow>
               file_loop fs rest
                 (evol_matrix',
                  (case date_label (basename tif_path) of
                     Some d \<Rightarrow> dates @ [d]
                   | None \<Rightarrow> dates))))"

definition tif_files_of :: "string \<Rightarrow> string list \<Rightarrow> string list" where
  "tif_files_of folder_path names =
     sort (map (path_join folder_path) (filter (\<lambda>f. endswith f ''.tif'') names))"

definition mask_evolution ::
  "(nat \<Rightarrow> nat \<Rightarrow> real) \<Rightarrow> filesystem \<Rightarrow> string \<Rightarrow> error + (matrix \<times> string list)"
where
  "mask_evolution junk fs folder_path =
     (case listdir fs folder_path of
        Inl e \<Rightarrow> Inl e
      | Inr names \<Rightarrow>
          (let tif_files = tif_files_of folder_path names;
               evol_matrix = np_empty junk (length tif_files) 7
           in file_loop fs (enumerate 0 tif_files) (evol_matrix, [])))"

text \<open>
  The row of one file as a value: the seven coverage statistics of its bands 1 to 7, or
  the first exception met on the way. The loops above are compared with it.
\<close>

fun band_values :: "image \<Rightarrow> int list \<Rightarrow> error + real list" where
  "band_values src [] = Inr []"
| "band_values src (i # rest) =
     (case read src i of
        Inl e \<Rightarrow> Inl e
      | Inr band \<Rightarrow>
          (case pc_band band of
             Inl e \<Rightarrow> Inl e
           | Inr v \<Rightarrow>
               (case band_values src rest of
                  Inl e \<Rightarrow> Inl e
                | Inr vs \<Rightarrow> Inr (v # vs))))"

definition file_row :: "filesystem \<Rightarrow> string \<Rightarrow> error + real list" where
  "file_row fs tif_path =
     (case rasterio_open fs tif_path of
        Inl e \<Rightarrow> Inl e
      | Inr src \<Rightarrow> band_values src [1..7])"

definition file_ok :: "filesystem \<Rightarrow> string \<Rightarrow> bool" where
  "file_ok fs tif_path = (case file_row fs tif_path of Inl e \<Rightarrow> False | Inr row \<Rightarrow> True)"

text \<open>The rows of a list of files, or the exception of the first file that fails.\<close>

fun rows_of :: "filesystem \<Rightarrow> string list \<Rightarrow> error + matrix" where
  "rows_of fs [] = Inr []"
| "rows_of fs (p # ps) =
     (case file_row fs p of
        Inl e \<Rightarrow> Inl e
      | Inr row \<Rightarrow>
          (case rows_of fs ps of
             Inl e \<Rightarrow> Inl e
           | Inr rows \<Rightarrow> Inr (row # rows)))"

text \<open>The date labels of a list of paths: one for each base name that has a match.\<close>

definition dates_of :: "string list \<Rightarrow> string list" where
  "dates_of paths = List.map_filter date_label (map basename paths)"

text \<open>The row after the band loop has stored the values \<open>vs\<close> for the indices \<open>js\<close>.\<close>

definition write_row :: "int list \<Rightarrow> real list \<Rightarrow> real list \<Rightarrow> real list" where
  "write_row js vs row = fold (\<lambda>(i, v) r. r[nat (i - 1) := v]) (zip js vs) row"

section \<open>The driver (ground\_truth.py, lines 166 to 174)\<close>

text \<open>
  \<open>main\<close> runs the folders in order. \<open>store_mask_evol\<close> and \<open>show_mask_evol\<close> are the
  parameter \<open>downstream\<close>. What \<open>main\<close> leaves behind is one entry per folder: done, or
  the folder path and the exception it printed. \<open>except Exception\<close> does not catch
  \<open>SystemExit\<close>, which ends \<open>main\<close>.
\<close>

datatype outcome = Done string | Reported string error

fun main_loop ::
  "(nat \<Rightarrow> nat \<Rightarrow> real) \<Rightarrow> filesystem \<Rightarrow> (matrix \<Rightarrow> string list \<Rightarrow> string \<Rightarrow> error + unit)
     \<Rightarrow> string list \<Rightarrow> error + outcome list"
where
  "main_loop junk fs downstream [] = Inr []"
| "main_loop junk fs downstream (folder_path # rest) =
     (let folder_name = basename folder_path;
          attempt =
            (case mask_evolution junk fs folder_path of
               Inl e \<Rightarrow> Inl e
             | Inr (evol_matrix, dates) \<Rightarrow> downstream evol_matrix dates folder_name)
      in case attempt of
           Inl e \<Rightarrow>
             (if is_Exception e
              then (case main_loop junk fs downstream rest of
                      Inl e' \<Rightarrow> Inl e'
                    | Inr out \<Rightarrow> Inr (Reported folder_path e # out))
              else Inl e)
         | Inr u \<Rightarrow>
             (case main_loop junk fs downstream rest of
                Inl e' \<Rightarrow> Inl e'
              | Inr out \<Rightarrow> Inr (Done folder_path # out)))"

section \<open>Examples\<close>

definition zero_grid :: ndarray where
  "zero_grid = \<lparr>shape0 = 2, shape1 = 2, data = [0, 0, 0, 0]\<rparr>"

definition mask_grid :: ndarray where
  "mask_grid = \<lparr>shape0 = 2, shape1 = 2, data = [0, 255, 0, 0]\<rparr>"



text \<open>A dataset given by its list of bands: band \<open>i\<close> is the \<open>i\<close>-th of the list.\<close>

definition raster_of :: "ndarray list \<Rightarrow> image" where
  "raster_of bs =
     \<lparr>bandes = int (length bs),
      read = (\<lambda>i. if 1 \<le> i \<and> i \<le> int (length bs) then Inr (bs ! nat (i - 1)) else Inl IndexError)\<rparr>"

definition three_band_raster :: image where
  "three_band_raster = raster_of [zero_grid, mask_grid, zero_grid]"





text \<open>
  A folder \<open>d\<close> with two rasters of seven bands and a text file; and a folder \<open>d\<close>
  whose second raster has three bands only.
\<close>

definition seven_band_raster :: image where
  "seven_band_raster =
     raster_of [mask_grid, zero_grid, mask_grid, zero_grid, zero_grid, zero_grid, zero_grid]"

definition example_fs :: filesystem where
  "example_fs =
     \<lparr>listdir = (\<lambda>p. if p = ''d''
                     then Inr [''scene_2020-05-12_v1.tif'', ''notes.txt'', ''scene.tif'']
                     else Inl OSError),
      rasterio_open = (\<lambda>p. if p = ''d/scene.tif'' \<or> p = ''d/scene_2020-05-12_v1.tif''
                           then Inr seven_band_raster
                           else Inl RasterioIOError)\<rparr>"

definition broken_fs :: filesystem where
  "broken_fs =
     \<lparr>listdir = (\<lambda>p. if p = ''d'' then Inr [''c.tif'', ''a.tif'', ''b.tif''] else Inl OSError),
      rasterio_open = (\<lambda>p. if p = ''d/a.tif'' \<or> p = ''d/c.tif'' then Inr seven_band_raster
                           else if p = ''d/b.tif'' then Inr three_band_raster
                           else Inl RasterioIOError)\<rparr>"

text \<open>An allocation that happens to be zeroed, and a downstream that succeeds.\<close>

definition no_junk :: "nat \<Rightarrow> nat \<Rightarrow> real" where
  "no_junk r c = 0"

definition accept :: "matrix \<Rightarrow> string list \<Rightarrow> string \<Rightarrow> error + unit" where
  "accept evol_matrix dates folder_name = Inr ()"

section \<open>Properties of the coverage statistic\<close>

















section \<open>Properties of the class detector\<close>

lemma detect_loop_filter:
  assumes "\<forall>i\<in>set js. readable img i"
  shows "detect_loop img js acc = Inr (acc @ filter (has_data img) js)"
  using assms
proof (induction js arbitrary: acc)
  case Nil
  then show ?case by simp
next
  case (Cons j js)
  from Cons.prems obtain d where d: "read img j = Inr d"
    by (auto simp: readable_def split: sum.splits)
  have rest: "\<forall>i\<in>set js. readable img i" using Cons.prems by simp
  show ?case
    using Cons.IH [OF rest] d by (simp add: has_data_def)
qed

text \<open>
  C9: when every band 1 to n of the raster can be read, \<open>detect_classes\<close> returns exactly
  the indices in 1 to n whose band has a non-zero pixel, in ascending order; on the
  raster with bands zero, non-zero, zero it returns \<open>[2]\<close>.
\<close>

theorem detect_classes_spec:
  assumes "all_readable img"
  shows "\<exists>cs. detect_classes img = Inr cs \<and> cs = filter (has_data img) [1..bandes img] \<and>
           sorted cs \<and> distinct cs \<and>
           set cs = {i. 1 \<le> i \<and> i \<le> bandes img \<and> has_data img i}"
proof -
  have r: "\<forall>i\<in>set [1..bandes img]. readable img i"
    using assms by (simp add: all_readable_def list_all_iff)
  have "detect_classes img = Inr (filter (has_data img) [1..bandes img])"
    using detect_loop_filter [OF r, of "[]"] by (simp add: detect_classes_def)
  moreover have "sorted (filter (has_data img) [1..bandes img])"
    using sorted_filter [of "\<lambda>x. x" "[1..bandes img]" "has_data img"] by simp
  moreover have "distinct (filter (has_data img) [1..bandes img])" by simp
  moreover have "set (filter (has_data img) [1..bandes img]) = {i. 1 \<le> i \<and> i \<le> bandes img \<and> has_data img i}"
    by auto
  ultimately show ?thesis by blast
qed

theorem detect_classes_spec_witness:
  "all_readable three_band_raster \<and> detect_classes three_band_raster = Inr [2]"
proof -
  have r: "all_readable three_band_raster"
    by (simp add: all_readable_def three_band_raster_def raster_of_def readable_def upto.simps)
  have f: "filter (has_data three_band_raster) [1..bandes three_band_raster] = [2]"
    by (simp add: has_data_def three_band_raster_def raster_of_def upto.simps np_any_def
        zero_grid_def mask_grid_def)
  from detect_classes_spec [OF r] f show ?thesis using r by simp
qed

section \<open>Properties of the class registry\<close>




text \<open>
  In \<open>show_class\<close> the lookup comes after the read of the band: the label is shown
  only for a class whose band can be read.
\<close>

lemma show_class_result:
  "show_class img classe =
     (case read img classe of
        Inl e \<Rightarrow> Inl e
      | Inr d \<Rightarrow> Inr (d, ''Classe : '' @ classe_name classe))"
  by (simp add: show_class_def)

lemma show_class_unknown_band:
  "show_class three_band_raster 99 = Inl IndexError"
  by (simp add: show_class_def three_band_raster_def raster_of_def)

section \<open>Properties of the spectral index engine\<close>







text \<open>
  C3, as amended: if either band index exceeds the declared band count,
  \<open>calculate_ndvi\<close> raises nothing and returns \<open>None\<close>; it is the caller \<open>show_ndvi\<close>
  that turns this \<open>None\<close> into \<open>SystemExit\<close>.
\<close>

theorem calculate_ndvi_insufficient_bands:
  assumes "bandes img < red_band_index \<or> bandes img < nir_band_index"
  shows "calculate_ndvi img red_band_index nir_band_index = Inr None \<and>
         show_ndvi img red_band_index nir_band_index threshold = Inl SystemExit"
proof -
  from assms have "bandes img < max red_band_index nir_band_index" by auto
  then have "calculate_ndvi img red_band_index nir_band_index = Inr None"
    by (simp add: calculate_ndvi_def)
  then show ?thesis by (simp add: show_ndvi_def)
qed

theorem calculate_ndvi_insufficient_bands_witness:
  "bandes three_band_raster < 4 \<and>
   calculate_ndvi three_band_raster 3 4 = Inr None \<and>
   show_ndvi three_band_raster 3 4 None = Inl SystemExit"
proof -
  have h: "bandes three_band_raster < 3 \<or> bandes three_band_raster < 4"
    by (simp add: three_band_raster_def raster_of_def)
  from calculate_ndvi_insufficient_bands [OF h, of None] show ?thesis
    by (simp add: three_band_raster_def raster_of_def)
qed

text \<open>
  Counterexample to C3 as stated: on a raster of three bands the indices 3 and 4 give the
  \<open>None\<close> result, not an exception.
\<close>

theorem calculate_ndvi_none_counterexample:
  "bandes three_band_raster < 4 \<and> calculate_ndvi three_band_raster 3 4 = Inr None \<and>
   \<not> isl (calculate_ndvi three_band_raster 3 4)"
  by (simp add: calculate_ndvi_def three_band_raster_def raster_of_def)

section \<open>Properties of the evolution aggregator\<close>

subsection \<open>Paths and their order\<close>

lemma path_join_plain: "plain_name f \<Longrightarrow> path_join a f = join_prefix a @ f"
  by (cases f) (auto simp: path_join_def join_prefix_def plain_name_def startswith_def)

lemma endswith_slash: "endswith a ''/'' \<longleftrightarrow> a \<noteq> [] \<and> last a = CHR ''/''"
proof (cases a rule: rev_cases)
  case Nil
  then show ?thesis by (simp add: endswith_def)
next
  case (snoc ys y)
  then show ?thesis by (auto simp: endswith_def)
qed

lemma basename_append:
  assumes "CHR ''/'' \<notin> set f" and "p = [] \<or> last p = CHR ''/''"
  shows "basename (p @ f) = f"
proof -
  have all: "takeWhile (\<lambda>c. c \<noteq> CHR ''/'') (rev f) = rev f"
    using assms(1) by (auto simp: takeWhile_eq_all_conv)
  show ?thesis
  proof (cases p rule: rev_cases)
    case Nil
    then show ?thesis by (simp add: basename_def all)
  next
    case (snoc ys y)
    with assms(2) have "y = CHR ''/''" by simp
    have "takeWhile (\<lambda>c. c \<noteq> CHR ''/'') (rev f @ y # rev ys)
          = rev f @ takeWhile (\<lambda>c. c \<noteq> CHR ''/'') (y # rev ys)"
      by (rule takeWhile_append2) (use assms(1) in auto)
    with \<open>y = CHR ''/''\<close> have "takeWhile (\<lambda>c. c \<noteq> CHR ''/'') (rev f @ y # rev ys) = rev f"
      by simp
    then show ?thesis by (simp add: basename_def snoc)
  qed
qed

lemma basename_path_join:
  assumes "plain_name f"
  shows "basename (path_join a f) = f"
proof -
  have "join_prefix a = [] \<or> last (join_prefix a) = CHR ''/''"
    by (auto simp: join_prefix_def endswith_slash)
  with assms show ?thesis
    by (simp add: path_join_plain basename_append plain_name_def)
qed

lemma append_le_iff: "(p @ a \<le> p @ b) = (a \<le> (b :: string))"
  by (induction p) auto

lemma insort_map_prefix:
  "insort (p @ x) (map ((@) p) ys) = map ((@) p) (insort x (ys :: string list))"
  by (induction ys) (auto simp: append_le_iff)

lemma sort_map_prefix: "sort (map ((@) p) xs) = map ((@) p) (sort (xs :: string list))"
  by (induction xs) (auto simp: sort_key_simps insort_map_prefix)

lemma tif_files_of_plain:
  assumes "list_all plain_name names"
  shows "tif_files_of a names = map ((@) (join_prefix a)) (sort (filter (\<lambda>f. endswith f ''.tif'') names))"
proof -
  have "map (path_join a) (filter (\<lambda>f. endswith f ''.tif'') names)
        = map ((@) (join_prefix a)) (filter (\<lambda>f. endswith f ''.tif'') names)"
    using assms by (intro list.map_cong0) (auto simp: list_all_iff path_join_plain)
  then have "sort (map (path_join a) (filter (\<lambda>f. endswith f ''.tif'') names))
        = sort (map ((@) (join_prefix a)) (filter (\<lambda>f. endswith f ''.tif'') names))"
    by (rule arg_cong)
  then show ?thesis unfolding tif_files_of_def by (simp only: sort_map_prefix)
qed

lemma basename_tif_files_of:
  assumes "list_all plain_name names"
  shows "map basename (tif_files_of a names) = sort (filter (\<lambda>f. endswith f ''.tif'') names)"
proof -
  let ?fs = "sort (filter (\<lambda>f. endswith f ''.tif'') names)"
  have pl: "\<forall>f\<in>set ?fs. plain_name f" using assms by (auto simp: list_all_iff)
  have "map (\<lambda>f. basename (join_prefix a @ f)) ?fs = ?fs"
  proof (rule map_idI)
    fix f assume "f \<in> set ?fs"
    with pl have "plain_name f" by blast
    then show "basename (join_prefix a @ f) = f"
      using basename_path_join [of f a] by (simp add: path_join_plain)
  qed
  then show ?thesis using tif_files_of_plain [OF assms] by (simp add: comp_def)
qed

subsection \<open>The band loop fills one row\<close>

lemma band_values_length: "band_values src js = Inr vs \<Longrightarrow> length vs = length js"
  by (induction js arbitrary: vs) (auto split: sum.splits)

lemma band_loop_row:
  assumes "index < length M"
  shows "band_loop src index js M =
           (case band_values src js of
              Inl e \<Rightarrow> Inl e
            | Inr vs \<Rightarrow> Inr (M[index := write_row js vs (M ! index)]))"
  using assms
proof (induction js arbitrary: M)
  case Nil
  then show ?case by (simp add: write_row_def)
next
  case (Cons j js)
  show ?case
  proof (cases "read src j")
    case (Inl e)
    then show ?thesis by simp
  next
    case (Inr band)
    note rd = this
    show ?thesis
    proof (cases "pc_band band")
      case (Inl e)
      with rd show ?thesis by simp
    next
      case (Inr v)
      let ?M = "set_cell M index (nat (j - 1)) v"
      have len: "index < length ?M" using Cons.prems by (simp add: set_cell_def)
      have row: "?M ! index = (M ! index)[nat (j - 1) := v]"
        using Cons.prems by (simp add: set_cell_def)
      have over: "?M[index := r] = M[index := r]" for r by (simp add: set_cell_def)
      show ?thesis
        using rd Inr Cons.IH [OF len]
        by (simp add: row over write_row_def split: sum.splits)
    qed
  qed
qed

lemma upto_1_7: "[1..7] = [1, 2, 3, 4, 5, 6, 7 :: int]"
  by (simp add: upto.simps)

lemma length_7_cases:
  assumes "length xs = 7"
  obtains a b c d e f g where "xs = [a, b, c, d, e, f, g]"
proof -
  from assms have "length xs = Suc (Suc (Suc (Suc (Suc (Suc (Suc 0))))))" by simp
  then show ?thesis using that by (auto simp: length_Suc_conv)
qed

lemma write_row_7:
  assumes "length vs = 7" and "length row = 7"
  shows "write_row [1..7] vs row = vs"
proof -
  from assms(1) obtain a b c d e f g where vs: "vs = [a, b, c, d, e, f, g]"
    by (rule length_7_cases)
  from assms(2) obtain a' b' c' d' e' f' g' where row: "row = [a', b', c', d', e', f', g']"
    by (rule length_7_cases)
  show ?thesis by (simp add: vs row upto_1_7 write_row_def)
qed

lemma band_loop_7:
  assumes "index < length M" and "length (M ! index) = 7"
  shows "band_loop src index [1..7] M =
           (case band_values src [1..7] of Inl e \<Rightarrow> Inl e | Inr vs \<Rightarrow> Inr (M[index := vs]))"
proof (cases "band_values src [1..7]")
  case (Inl e)
  then show ?thesis using band_loop_row [OF assms(1), of src "[1..7]"] by simp
next
  case (Inr vs)
  then have "length vs = 7" using band_values_length [OF Inr] by (simp add: upto_1_7)
  then have "write_row [1..7] vs (M ! index) = vs" using assms(2) by (rule write_row_7)
  then show ?thesis using Inr band_loop_row [OF assms(1), of src "[1..7]"] by simp
qed

lemma file_row_length: "file_row fs p = Inr row \<Longrightarrow> length row = 7"
  by (auto simp: file_row_def upto_1_7 split: sum.splits dest!: band_values_length)

subsection \<open>The file loop fills the matrix row by row\<close>

lemma file_loop_rows:
  assumes "length M = k + length ps" and "\<forall>row\<in>set M. length row = 7"
  shows "file_loop fs (enumerate k ps) (M, ds) =
           (case rows_of fs ps of
              Inl e \<Rightarrow> Inl e
            | Inr rows \<Rightarrow> Inr (take k M @ rows, ds @ dates_of ps))"
  using assms
proof (induction ps arbitrary: k M ds)
  case Nil
  then show ?case by (simp add: dates_of_def)
next
  case (Cons p ps)
  have k: "k < length M" using Cons.prems(1) by simp
  have r7: "length (M ! k) = 7" using Cons.prems(2) k by simp
  show ?case
  proof (cases "rasterio_open fs p")
    case (Inl e)
    then show ?thesis by (simp add: file_row_def)
  next
    case (Inr src)
    note op = this
    show ?thesis
    proof (cases "band_values src [1..7]")
      case (Inl e)
      then show ?thesis using op band_loop_7 [OF k r7, of src] by (simp add: file_row_def)
    next
      case (Inr vs)
      have fr: "file_row fs p = Inr vs" using op Inr by (simp add: file_row_def)
      have lv: "length vs = 7" using fr by (rule file_row_length)
      let ?M = "M[k := vs]"
      let ?ds = "(case date_label (basename p) of Some d \<Rightarrow> ds @ [d] | None \<Rightarrow> ds)"
      have bl: "band_loop src k [1..7] M = Inr ?M"
        using Inr band_loop_7 [OF k r7, of src] by simp
      have len: "length ?M = Suc k + length ps" using Cons.prems(1) by simp
      have rows: "\<forall>row\<in>set ?M. length row = 7"
        using Cons.prems(2) lv by (auto dest!: set_update_subset_insert [THEN subsetD])
      have tk: "take (Suc k) ?M = take k M @ [vs]"
        using k by (simp add: take_Suc_conv_app_nth)
      have dd: "?ds @ dates_of ps = ds @ dates_of (p # ps)"
        by (simp add: dates_of_def List.map_filter_simps split: option.splits)
      have "file_loop fs (enumerate k (p # ps)) (M, ds) = file_loop fs (enumerate (Suc k) ps) (?M, ?ds)"
        using op bl by simp
      also have "\<dots> = (case rows_of fs ps of Inl e \<Rightarrow> Inl e
                       | Inr rows \<Rightarrow> Inr (take (Suc k) ?M @ rows, ?ds @ dates_of ps))"
        by (rule Cons.IH [OF len rows])
      also have "\<dots> = (case rows_of fs (p # ps) of Inl e \<Rightarrow> Inl e
                       | Inr rows \<Rightarrow> Inr (take k M @ rows, ds @ dates_of (p # ps)))"
        using fr by (simp add: tk dd split: sum.splits)
      finally show ?thesis .
    qed
  qed
qed

lemma np_empty_shape:
  "length (np_empty junk n m) = n \<and> (\<forall>row\<in>set (np_empty junk n m). length row = m)"
  by (auto simp: np_empty_def)

text \<open>The function as a value: the junk of the allocation never shows.\<close>

lemma mask_evolution_rows:
  "mask_evolution junk fs folder_path =
     (case listdir fs folder_path of
        Inl e \<Rightarrow> Inl e
      | Inr names \<Rightarrow>
          (case rows_of fs (tif_files_of folder_path names) of
             Inl e \<Rightarrow> Inl e
           | Inr rows \<Rightarrow> Inr (rows, dates_of (tif_files_of folder_path names))))"
proof (cases "listdir fs folder_path")
  case (Inl e)
  then show ?thesis by (simp add: mask_evolution_def)
next
  case (Inr names)
  let ?tifs = "tif_files_of folder_path names"
  let ?M = "np_empty junk (length ?tifs) 7"
  have len: "length ?M = 0 + length ?tifs" using np_empty_shape [of junk "length ?tifs" 7] by simp
  have rows: "\<forall>row\<in>set ?M. length row = 7" using np_empty_shape [of junk "length ?tifs" 7] by simp
  show ?thesis
    using Inr file_loop_rows [OF len rows, of fs "[]"]
    by (simp add: mask_evolution_def Let_def split: sum.splits)
qed

subsection \<open>The date pattern\<close>









subsection \<open>The examples, evaluated\<close>

lemma pc_band_mask_grid: "pc_band mask_grid = Inr 25"
  by (simp add: pc_band_def np_sum_def np_max_def div_scalar_def mask_grid_def)

lemma pc_band_zero_grid: "pc_band zero_grid = Inr 0"
  by (simp add: pc_band_def np_sum_def zero_grid_def)

lemma band_values_seven: "band_values seven_band_raster [1..7] = Inr [25, 0, 25, 0, 0, 0, 0]"
  by (simp add: upto_1_7 seven_band_raster_def raster_of_def pc_band_mask_grid pc_band_zero_grid)

lemma band_values_three: "band_values three_band_raster [1..7] = Inl IndexError"
  by (simp add: upto_1_7 three_band_raster_def raster_of_def pc_band_mask_grid pc_band_zero_grid)

lemma tifs_example:
  "tif_files_of ''d'' [''scene_2020-05-12_v1.tif'', ''notes.txt'', ''scene.tif'']
     = [''d/scene.tif'', ''d/scene_2020-05-12_v1.tif'']"
  by (simp add: tif_files_of_def endswith_def path_join_def startswith_def)

lemma tifs_broken:
  "tif_files_of ''d'' [''c.tif'', ''a.tif'', ''b.tif''] = [''d/a.tif'', ''d/b.tif'', ''d/c.tif'']"
  by (simp add: tif_files_of_def endswith_def path_join_def startswith_def)

lemma date_label_scene: "date_label ''scene_2020-05-12_v1.tif'' = Some ''2020-05-12''"
  by (simp add: date_label_def date_pattern_def isdigit_def is_sep_def replace_underscore_def)

lemma date_label_plain: "date_label ''scene.tif'' = None"
  by (simp add: date_label_def date_pattern_def isdigit_def is_sep_def)

lemma mask_evolution_example:
  "mask_evolution junk example_fs ''d''
     = Inr ([[25, 0, 25, 0, 0, 0, 0], [25, 0, 25, 0, 0, 0, 0]], [''2020-05-12''])"
  by (simp add: mask_evolution_rows example_fs_def tifs_example file_row_def band_values_seven
      dates_of_def basename_def List.map_filter_simps date_label_scene date_label_plain)

lemma mask_evolution_broken: "mask_evolution junk broken_fs ''d'' = Inl IndexError"
  by (simp add: mask_evolution_rows broken_fs_def tifs_broken file_row_def band_values_seven
      band_values_three)

subsection \<open>The matrix\<close>

lemma rows_of_Inr:
  "rows_of fs ps = Inr rows \<longleftrightarrow> map (file_row fs) ps = map Inr rows"
proof (induction ps arbitrary: rows)
  case Nil
  then show ?case by auto
next
  case (Cons p ps)
  show ?case
  proof (cases "file_row fs p")
    case (Inl e)
    then show ?thesis by (cases rows) auto
  next
    case (Inr row)
    note fr = this
    show ?thesis
    proof (cases "rows_of fs ps")
      case (Inl e)
      have "map (file_row fs) ps \<noteq> map Inr rs" for rs
        using Cons.IH [of rs] Inl by simp
      with fr Inl show ?thesis by (cases rows) auto
    next
      case (Inr rs)
      with Cons.IH [of rs] have "map (file_row fs) ps = map Inr rs" by blast
      with fr Inr show ?thesis by (cases rows) (auto simp: inj_map_eq_map)
    qed
  qed
qed

lemma rows_of_Inl:
  assumes "\<not> list_all (file_ok fs) ps"
  shows "\<exists>e p. rows_of fs ps = Inl e \<and> p \<in> set ps \<and> file_row fs p = Inl e"
  using assms
proof (induction ps)
  case Nil
  then show ?case by simp
next
  case (Cons p ps)
  show ?case
  proof (cases "file_row fs p")
    case (Inl e)
    then show ?thesis by auto
  next
    case (Inr row)
    then have "file_ok fs p" by (simp add: file_ok_def)
    with Cons.prems have "\<not> list_all (file_ok fs) ps" by simp
    from Cons.IH [OF this] obtain e q where "rows_of fs ps = Inl e" "q \<in> set ps" "file_row fs q = Inl e"
      by blast
    with Inr show ?thesis by auto
  qed
qed

text \<open>
  C5: whenever \<open>mask_evolution\<close> returns a matrix for a folder, the matrix has one row
  for each \<open>.tif\<close> name of the listing, each of them processed without an exception,
  every row has exactly 7 columns, and the rows follow the ascending lexical order of
  the file names: row \<open>k\<close> is the row of the \<open>k\<close>-th name of the sorted list.
\<close>

theorem mask_evolution_matrix:
  assumes "listdir fs folder_path = Inr names"
    and "list_all plain_name names"
    and "mask_evolution junk fs folder_path = Inr (evol_matrix, dates)"
  shows "length evol_matrix = length (filter (\<lambda>f. endswith f ''.tif'') names) \<and>
         list_all (\<lambda>row. length row = 7) evol_matrix \<and>
         map (file_row fs) (tif_files_of folder_path names) = map Inr evol_matrix \<and>
         map basename (tif_files_of folder_path names) = sort (filter (\<lambda>f. endswith f ''.tif'') names)"
proof -
  let ?tifs = "tif_files_of folder_path names"
  from assms(1,3) have r: "rows_of fs ?tifs = Inr evol_matrix"
    by (simp add: mask_evolution_rows split: sum.splits)
  then have m: "map (file_row fs) ?tifs = map Inr evol_matrix" by (simp add: rows_of_Inr)
  then have "length ?tifs = length evol_matrix" by (rule map_eq_imp_length_eq)
  moreover have "length ?tifs = length (filter (\<lambda>f. endswith f ''.tif'') names)"
    by (simp add: tif_files_of_def)
  ultimately have len: "length evol_matrix = length (filter (\<lambda>f. endswith f ''.tif'') names)"
    by simp
  have "length row = 7" if "row \<in> set evol_matrix" for row
  proof -
    from that have "Inr row \<in> set (map (file_row fs) ?tifs)" by (simp add: m)
    then obtain p where "file_row fs p = Inr row" by auto
    then show ?thesis by (rule file_row_length)
  qed
  then have seven: "list_all (\<lambda>row. length row = 7) evol_matrix" by (simp add: list_all_iff)
  from len seven m basename_tif_files_of [OF assms(2)] show ?thesis by blast
qed

theorem mask_evolution_matrix_witness:
  "listdir example_fs ''d'' = Inr [''scene_2020-05-12_v1.tif'', ''notes.txt'', ''scene.tif''] \<and>
   list_all plain_name [''scene_2020-05-12_v1.tif'', ''notes.txt'', ''scene.tif''] \<and>
   mask_evolution no_junk example_fs ''d''
     = Inr ([[25, 0, 25, 0, 0, 0, 0], [25, 0, 25, 0, 0, 0, 0]], [''2020-05-12'']) \<and>
   map basename (tif_files_of ''d'' [''scene_2020-05-12_v1.tif'', ''notes.txt'', ''scene.tif''])
     = [''scene.tif'', ''scene_2020-05-12_v1.tif''] \<and>
   map (file_row example_fs) (tif_files_of ''d'' [''scene_2020-05-12_v1.tif'', ''notes.txt'', ''scene.tif''])
     = [Inr [25, 0, 25, 0, 0, 0, 0], Inr [25, 0, 25, 0, 0, 0, 0]]"
proof -
  let ?names = "[''scene_2020-05-12_v1.tif'', ''notes.txt'', ''scene.tif'']"
  have h1: "listdir example_fs ''d'' = Inr ?names" by (simp add: example_fs_def)
  have h2: "list_all plain_name ?names" by (simp add: plain_name_def)
  have h3: "mask_evolution no_junk example_fs ''d''
     = Inr ([[25, 0, 25, 0, 0, 0, 0], [25, 0, 25, 0, 0, 0, 0]], [''2020-05-12''])"
    by (rule mask_evolution_example)
  have s: "sort (filter (\<lambda>f. endswith f ''.tif'') ?names) = [''scene.tif'', ''scene_2020-05-12_v1.tif'']"
    by (simp add: endswith_def)
  from mask_evolution_matrix [OF h1 h2 h3] h1 h2 h3 s show ?thesis by simp
qed

subsection \<open>The date label\<close>





subsection \<open>Failures\<close>

text \<open>
  C4, as amended: if one \<open>.tif\<close> file of a folder cannot be opened, or one of its bands
  1 to 7 cannot be read, \<open>mask_evolution\<close> returns no matrix for that folder: the
  exception of a failing file leaves the function. \<open>main\<close> catches it for the folder as
  a whole, reports the folder path with the cause, and goes on with the remaining folders.
\<close>

theorem mask_evolution_failure:
  assumes "listdir fs folder_path = Inr names"
    and "\<not> list_all (file_ok fs) (tif_files_of folder_path names)"
  shows "\<exists>e. mask_evolution junk fs folder_path = Inl e \<and>
           list_ex (\<lambda>p. file_row fs p = Inl e) (tif_files_of folder_path names) \<and>
           (is_Exception e \<longrightarrow>
              main_loop junk fs downstream (folder_path # rest) =
                (case main_loop junk fs downstream rest of
                   Inl e' \<Rightarrow> Inl e'
                 | Inr out \<Rightarrow> Inr (Reported folder_path e # out)))"
proof -
  from rows_of_Inl [OF assms(2)] obtain e p where
    r: "rows_of fs (tif_files_of folder_path names) = Inl e"
    and p: "p \<in> set (tif_files_of folder_path names)" "file_row fs p = Inl e" by blast
  have m: "mask_evolution junk fs folder_path = Inl e"
    using assms(1) r by (simp add: mask_evolution_rows)
  have ex: "list_ex (\<lambda>p. file_row fs p = Inl e) (tif_files_of folder_path names)"
    using p by (auto simp: list_ex_iff)
  have "main_loop junk fs downstream (folder_path # rest) =
          (case main_loop junk fs downstream rest of
             Inl e' \<Rightarrow> Inl e'
           | Inr out \<Rightarrow> Inr (Reported folder_path e # out))" if "is_Exception e"
    using that m by simp
  with m ex show ?thesis by blast
qed

theorem mask_evolution_failure_witness:
  "listdir broken_fs ''d'' = Inr [''c.tif'', ''a.tif'', ''b.tif''] \<and>
   \<not> list_all (file_ok broken_fs) (tif_files_of ''d'' [''c.tif'', ''a.tif'', ''b.tif'']) \<and>
   mask_evolution no_junk broken_fs ''d'' = Inl IndexError \<and>
   file_row broken_fs ''d/b.tif'' = Inl IndexError \<and>
   is_Exception IndexError \<and>
   main_loop no_junk broken_fs accept [''d'', ''e''] = Inr [Reported ''d'' IndexError, Reported ''e'' OSError]"
proof -
  let ?names = "[''c.tif'', ''a.tif'', ''b.tif'']"
  have h1: "listdir broken_fs ''d'' = Inr ?names" by (simp add: broken_fs_def)
  have fb: "file_row broken_fs ''d/b.tif'' = Inl IndexError"
    by (simp add: file_row_def broken_fs_def band_values_three)
  then have h2: "\<not> list_all (file_ok broken_fs) (tif_files_of ''d'' ?names)"
    by (simp add: tifs_broken file_ok_def)
  have m: "mask_evolution no_junk broken_fs ''d'' = Inl IndexError" by (rule mask_evolution_broken)
  have e: "mask_evolution no_junk broken_fs ''e'' = Inl OSError"
    by (simp add: mask_evolution_def broken_fs_def)
  have ex: "is_Exception IndexError" by (simp add: is_Exception_def)
  have rest: "main_loop no_junk broken_fs accept [''e''] = Inr [Reported ''e'' OSError]"
    using e by (simp add: is_Exception_def)
  from mask_evolution_failure [OF h1 h2, of no_junk accept "[''e'']"] m ex rest
  have "main_loop no_junk broken_fs accept [''d'', ''e''] = Inr [Reported ''d'' IndexError, Reported ''e'' OSError]"
    by auto
  with h1 h2 m fb ex show ?thesis by simp
qed

text \<open>
  Counterexample to C4 as stated: of three files the second has too few bands; the
  first and the third are readable, yet the folder yields no row at all, and the report
  names the folder.
\<close>

theorem mask_evolution_failure_counterexample:
  "file_ok broken_fs ''d/a.tif'' \<and> \<not> file_ok broken_fs ''d/b.tif'' \<and> file_ok broken_fs ''d/c.tif'' \<and>
   tif_files_of ''d'' [''c.tif'', ''a.tif'', ''b.tif''] = [''d/a.tif'', ''d/b.tif'', ''d/c.tif''] \<and>
   mask_evolution no_junk broken_fs ''d'' = Inl IndexError \<and>
   main_loop no_junk broken_fs accept [''d''] = Inr [Reported ''d'' IndexError]"
proof -
  have "file_ok broken_fs ''d/a.tif''" "\<not> file_ok broken_fs ''d/b.tif''" "file_ok broken_fs ''d/c.tif''"
    by (simp_all add: file_ok_def file_row_def broken_fs_def band_values_seven band_values_three)
  moreover have "main_loop no_junk broken_fs accept [''d''] = Inr [Reported ''d'' IndexError]"
    by (simp add: mask_evolution_broken is_Exception_def)
  ultimately show ?thesis by (simp add: tifs_broken mask_evolution_broken)
qed

end
